theory Spec2Isabelle
  imports Main "HOL-Library.Sublist"
begin

section \<open>Python strings and values\<close>

text \<open>
  Strings are text over the code points 0 to 255 (ASCII and Latin-1), one \<open>char\<close>
  per code point. The helpers below are the \<open>str\<close> methods the two modules call,
  on that range.
\<close>

text \<open>
  The characters \<open>str.strip()\<close> removes: tab to carriage return, the four
  separators U+001C to U+001F, the space, U+0085 and the no-break space U+00A0.
\<close>

definition py_isspace :: "char \<Rightarrow> bool" where
  "py_isspace c =
     (let n = (of_char c :: nat) in
        (9 \<le> n \<and> n \<le> 13) \<or> (28 \<le> n \<and> n \<le> 32) \<or> n = 133 \<or> n = 160)"

definition py_strip :: "string \<Rightarrow> string" where
  "py_strip s = rev (dropWhile py_isspace (rev (dropWhile py_isspace s)))"

text \<open>
  The letters that have another case: the 26 of ASCII, and those of Latin-1,
  U+00E0 to U+00FE without the division sign over U+00C0 to U+00DE without the
  multiplication sign.
\<close>

definition ascii_lowercase :: string where
  "ascii_lowercase = ''abcdefghijklmnopqrstuvwxyz''"

definition ascii_uppercase :: string where
  "ascii_uppercase = ''ABCDEFGHIJKLMNOPQRSTUVWXYZ''"

definition latin1_lowercase :: string where
  "latin1_lowercase =
     [CHR 0xE0, CHR 0xE1, CHR 0xE2, CHR 0xE3, CHR 0xE4, CHR 0xE5, CHR 0xE6, CHR 0xE7,
      CHR 0xE8, CHR 0xE9, CHR 0xEA, CHR 0xEB, CHR 0xEC, CHR 0xED, CHR 0xEE, CHR 0xEF,
      CHR 0xF0, CHR 0xF1, CHR 0xF2, CHR 0xF3, CHR 0xF4, CHR 0xF5, CHR 0xF6, CHR 0xF8,
      CHR 0xF9, CHR 0xFA, CHR 0xFB, CHR 0xFC, CHR 0xFD, CHR 0xFE]"

definition latin1_uppercase :: string where
  "latin1_uppercase =
     [CHR 0xC0, CHR 0xC1, CHR 0xC2, CHR 0xC3, CHR 0xC4, CHR 0xC5, CHR 0xC6, CHR 0xC7,
      CHR 0xC8, CHR 0xC9, CHR 0xCA, CHR 0xCB, CHR 0xCC, CHR 0xCD, CHR 0xCE, CHR 0xCF,
      CHR 0xD0, CHR 0xD1, CHR 0xD2, CHR 0xD3, CHR 0xD4, CHR 0xD5, CHR 0xD6, CHR 0xD8,
      CHR 0xD9, CHR 0xDA, CHR 0xDB, CHR 0xDC, CHR 0xDD, CHR 0xDE]"

definition upper_char :: "char \<Rightarrow> char" where
  "upper_char c =
     (case map_of (zip (ascii_lowercase @ latin1_lowercase)
                       (ascii_uppercase @ latin1_uppercase)) c of
        None \<Rightarrow> c
      | Some u \<Rightarrow> u)"

definition lower_char :: "char \<Rightarrow> char" where
  "lower_char c =
     (case map_of (zip (ascii_uppercase @ latin1_uppercase)
                       (ascii_lowercase @ latin1_lowercase)) c of
        None \<Rightarrow> c
      | Some l \<Rightarrow> l)"

text \<open>
  \<open>str.upper()\<close> turns the sharp s, U+00DF, into \<open>SS\<close>. The upper-case forms of
  U+00B5 and U+00FF are U+039C and U+0178, beyond the last \<open>char\<close>: the two are
  left in place, which like their upper-case forms are no ASCII characters.
\<close>

definition upper_str :: "char \<Rightarrow> string" where
  "upper_str c = (if c = CHR 0xDF then ''SS'' else [upper_char c])"

definition py_upper :: "string \<Rightarrow> string" where
  "py_upper s = concat (map upper_str s)"

definition py_lower :: "string \<Rightarrow> string" where
  "py_lower s = map lower_char s"

text \<open>\<open>s.replace("-", "")\<close>: every dash is dropped.\<close>

definition remove_dashes :: "string \<Rightarrow> string" where
  "remove_dashes s = filter (\<lambda>c. c \<noteq> CHR ''-'') s"

text \<open>\<open>sub in s\<close> on strings: \<open>sub\<close> occurs in \<open>s\<close> as a contiguous block.\<close>

fun py_in :: "string \<Rightarrow> string \<Rightarrow> bool" where
  "py_in sub [] = (sub = [])"
| "py_in sub (c # cs) = (prefix sub (c # cs) \<or> py_in sub cs)"

text \<open>
  The values \<open>json.loads\<close> builds, which are also the values the resolver caches and
  returns: \<open>JNull\<close> is Python's \<open>None\<close>. A dictionary keeps its items in insertion
  order, with distinct keys. Numbers are integers; the code only ever tests a
  number for truth.
\<close>

datatype jval =
    JNull
  | JBool bool
  | JNum int
  | JStr string
  | JArr "jval list"
  | JObj "(string \<times> jval) list"

fun py_truthy :: "jval \<Rightarrow> bool" where
  "py_truthy JNull = False"
| "py_truthy (JBool b) = b"
| "py_truthy (JNum n) = (n \<noteq> 0)"
| "py_truthy (JStr s) = (s \<noteq> [])"
| "py_truthy (JArr xs) = (xs \<noteq> [])"
| "py_truthy (JObj kvs) = (kvs \<noteq> [])"

text \<open>\<open>d.get(k, default)\<close>; on a value that is no dictionary it raises
  \<open>AttributeError\<close>, which is \<open>None\<close> here.\<close>

fun dict_get :: "jval \<Rightarrow> string \<Rightarrow> jval \<Rightarrow> jval option" where
  "dict_get (JObj kvs) k d = Some (case map_of kvs k of None \<Rightarrow> d | Some v \<Rightarrow> v)"
| "dict_get _ k d = None"

section \<open>The identifier resolver (\<open>ndc_to_rxcui.py\<close>)\<close>

text \<open>
  The cache file \<open>data/.rxnorm_ndc_cache.json\<close>: missing, holding text that
  \<open>json.loads\<close> rejects, or holding the JSON object that \<open>json.dumps\<close> wrote for a
  dictionary. The module only ever writes a dictionary, so other documents are
  not considered.
\<close>

datatype cache_file = Missing | Unparsable | Doc "string \<rightharpoonup> jval"

text \<open>
  What the resolver does to the outside world, in order: a GET of a URL, a sleep
  of half a second, a call of \<open>_save\<close>.
\<close>

datatype event = Fetch string | Sleep | Save

fun is_Fetch :: "event \<Rightarrow> bool" where
  "is_Fetch (Fetch u) = True"
| "is_Fetch _ = False"

fun is_Save :: "event \<Rightarrow> bool" where
  "is_Save Save = True"
| "is_Save _ = False"

definition fetches :: "event list \<Rightarrow> nat" where
  "fetches l = length (filter is_Fetch l)"

definition saves :: "event list \<Rightarrow> nat" where
  "saves l = length (filter is_Save l)"

text \<open>
  The module's global \<open>_cache\<close> (a key mapped to \<open>JNull\<close> is a cached "not found"),
  the file on disk, and the events so far.
\<close>

record rstate =
  cache :: "string \<rightharpoonup> jval"
  disk :: cache_file
  log :: "event list"

text \<open>
  One HTTP attempt either raises (network error, timeout, undecodable or
  malformed body) or gives the parsed body. A write of the cache file either
  succeeds or raises, leaving the file in some state.
\<close>

datatype response = Raises | Body jval

datatype write_outcome = Succeeds | Fails cache_file

text \<open>
  The environment answers the n-th GET (for its URL) and the n-th write, counted
  from 0 over the whole run.
\<close>

record env =
  net :: "nat \<Rightarrow> string \<Rightarrow> response"
  wr :: "nat \<Rightarrow> write_outcome"

text \<open>Module start: lines 9 to 14.\<close>

fun load :: "cache_file \<Rightarrow> (string \<rightharpoonup> jval)" where
  "load Missing = Map.empty"
| "load Unparsable = Map.empty"
| "load (Doc d) = d"

definition restart :: "rstate \<Rightarrow> rstate" where
  "restart s = s\<lparr>cache := load (disk s)\<rparr>"

text \<open>\<open>_save\<close>: write the whole dictionary; any exception is passed over.\<close>

definition save :: "env \<Rightarrow> rstate \<Rightarrow> rstate" where
  "save E s =
     (case wr E (saves (log s)) of
        Succeeds \<Rightarrow> s\<lparr>disk := Doc (cache s), log := log s @ [Save]\<rparr>
      | Fails f \<Rightarrow> s\<lparr>disk := f, log := log s @ [Save]\<rparr>)"

definition url_of :: "string \<Rightarrow> string" where
  "url_of key = ''https://rxnav.nlm.nih.gov/REST/rxcui.json?idtype=NDC&id='' @ key"

text \<open>Lines 34 and 35; \<open>None\<close> when one of the two \<open>get\<close> calls raises.\<close>

definition extract_rxcui :: "jval \<Rightarrow> jval option" where
  "extract_rxcui data =
     (case dict_get data ''idGroup'' (JObj []) of
        None \<Rightarrow> None
      | Some g \<Rightarrow>
          (case dict_get g ''rxnormId'' JNull of
             None \<Rightarrow> None
           | Some rxcui \<Rightarrow>
               Some (case rxcui of JArr (x # xs) \<Rightarrow> x | _ \<Rightarrow> JNull)))"

text \<open>An attempt fails when anything in the \<open>try\<close> block raises: the request, or one
  of the \<open>get\<close> calls on a body of the wrong shape.\<close>

fun failed :: "response \<Rightarrow> bool" where
  "failed Raises = True"
| "failed (Body data) = (extract_rxcui data = None)"

text \<open>
  The loop \<open>for _ in range(3)\<close> with \<open>n\<close> rounds left, followed by lines 41 to 43.
\<close>

fun attempts :: "env \<Rightarrow> string \<Rightarrow> nat \<Rightarrow> rstate \<Rightarrow> jval \<times> rstate" where
  "attempts E key 0 s = (JNull, save E (s\<lparr>cache := (cache s)(key \<mapsto> JNull)\<rparr>))"
| "attempts E key (Suc n) s =
     (let s1 = s\<lparr>log := log s @ [Fetch (url_of key)]\<rparr> in
      case net E (fetches (log s)) (url_of key) of
        Raises \<Rightarrow> attempts E key n (s1\<lparr>log := log s1 @ [Sleep]\<rparr>)
      | Body data \<Rightarrow>
          (case extract_rxcui data of
             None \<Rightarrow> attempts E key n (s1\<lparr>log := log s1 @ [Sleep]\<rparr>)
           | Some val \<Rightarrow> (val, save E (s1\<lparr>cache := (cache s1)(key \<mapsto> val)\<rparr>))))"

definition ndc_to_rxcui :: "env \<Rightarrow> rstate \<Rightarrow> string \<Rightarrow> jval \<times> rstate" where
  "ndc_to_rxcui E s ndc =
     (let key = py_strip (remove_dashes ndc) in
      if key = [] then (JNull, s)
      else
        (case cache s key of
           Some v \<Rightarrow> (if py_truthy v then v else JNull, s)
         | None \<Rightarrow> attempts E key 3 s))"

section \<open>The ingestion pipeline (\<open>ingest_cms.py\<close>)\<close>

text \<open>
  A row as the generator yields it: a dictionary from column name to a string, or
  to \<open>None\<close> where the line was shorter than the header.
\<close>

type_synonym row = "string \<rightharpoonup> string option"

text \<open>
  A row as \<open>csv.DictReader\<close> produces it: the items under the header's names, and
  the surplus fields of a line longer than the header, which \<open>DictReader\<close> stores
  as a list under the key \<open>None\<close>.
\<close>

datatype csv_row = CsvRow "(string \<times> string option) list" "string list"

text \<open>
  The input path: a path whose suffix is \<open>.zip\<close> in any case, with the archive's
  \<open>namelist()\<close> and what \<open>DictReader\<close> reads from each member, or any other path
  with what \<open>DictReader\<close> reads from the file.
\<close>

datatype input = Zip "string list" "string \<Rightarrow> csv_row list" | Flat "csv_row list"

text \<open>
  \<open>NoTableFound\<close> is the \<open>RuntimeError\<close> of line 24; \<open>AttributeError\<close> is raised by
  \<open>k.strip()\<close> on the key \<open>None\<close>.
\<close>

datatype error = NoTableFound | AttributeError

text \<open>The dictionary comprehension of lines 29 and 34: a later item wins.\<close>

definition strip_row :: "(string \<times> string option) list \<Rightarrow> row" where
  "strip_row kvs =
     foldl (\<lambda>m (k, v). m(py_strip k \<mapsto> map_option py_strip v)) Map.empty kvs"

text \<open>
  The rows a reader yields, in order, and the exception that ends the iteration,
  if one does.
\<close>

fun yield_rows :: "csv_row list \<Rightarrow> row list \<times> error option" where
  "yield_rows [] = ([], None)"
| "yield_rows (CsvRow kvs extra # rest) =
     (if extra \<noteq> [] then ([], Some AttributeError)
      else (let (rows, e) = yield_rows rest in (strip_row kvs # rows, e)))"

definition looks_like_formulary :: "string \<Rightarrow> bool" where
  "looks_like_formulary n =
     (py_in ''formulary'' (py_lower n) \<and> suffix ''.csv'' (py_lower n))"

definition open_formulary_rows :: "input \<Rightarrow> row list \<times> error option" where
  "open_formulary_rows inp =
     (case inp of
        Zip names member \<Rightarrow>
          (case filter looks_like_formulary names of
             [] \<Rightarrow> ([], Some NoTableFound)
           | c # cs \<Rightarrow> yield_rows (member c))
      | Flat rows \<Rightarrow> yield_rows rows)"

text \<open>\<open>r.get(k)\<close> and \<open>r.get(k, d)\<close>.\<close>

definition row_get :: "row \<Rightarrow> string \<Rightarrow> string option" where
  "row_get r k = (case r k of None \<Rightarrow> None | Some v \<Rightarrow> v)"

definition row_get_default :: "row \<Rightarrow> string \<Rightarrow> string \<Rightarrow> string option" where
  "row_get_default r k d = (case r k of None \<Rightarrow> Some d | Some v \<Rightarrow> v)"

text \<open>Truth of a string or \<open>None\<close>, \<open>a or b\<close>, and \<open>a or ""\<close>.\<close>

fun str_truthy :: "string option \<Rightarrow> bool" where
  "str_truthy (Some (c # cs)) = True"
| "str_truthy _ = False"

definition str_or :: "string option \<Rightarrow> string option \<Rightarrow> string option" where
  "str_or a b = (if str_truthy a then a else b)"

fun or_empty :: "string option \<Rightarrow> string" where
  "or_empty (Some s) = s"
| "or_empty None = []"

fun py_str :: "string option \<Rightarrow> string" where
  "py_str None = ''None''"
| "py_str (Some s) = s"

definition norm_bool :: "string option \<Rightarrow> bool" where
  "norm_bool v =
     (py_upper (py_strip (py_str v)) \<in> {''Y'', ''YES'', ''TRUE'', ''T'', ''1''})"

text \<open>The value handed to \<open>csv.writer\<close> for a string or \<open>None\<close>.\<close>

fun cell :: "string option \<Rightarrow> jval" where
  "cell None = JNull"
| "cell (Some s) = JStr s"

definition header :: "jval list" where
  "header = map JStr [''plan_id'', ''rxcui'', ''drug_name'', ''strength'', ''route'', ''tier'',
     ''pa'', ''st'', ''ql'', ''ql_max_qty'', ''ql_per_days'', ''alt_rxcui'', ''notes'']"

text \<open>
  The loop's variables: the resolver's state, the rows written to the output file
  so far, and the two counters.
\<close>

record istate =
  rs :: rstate
  out :: "jval list list"
  n_in :: nat
  n_out :: nat

definition contract_of :: "row \<Rightarrow> string option" where
  "contract_of r = str_or (row_get r ''CONTRACT_ID'') (row_get r ''PARENT_ORGANIZATION_CONTRACT_ID'')"

definition plan_of :: "row \<Rightarrow> string option" where
  "plan_of r = str_or (row_get r ''PLAN_ID'') (row_get r ''PBP'')"

definition ndc_of :: "row \<Rightarrow> string" where
  "ndc_of r = remove_dashes (or_empty (str_or (row_get r ''NDC'') (row_get r ''NDC_11'')))"

definition tier_of :: "row \<Rightarrow> string option" where
  "tier_of r = str_or (row_get r ''TIER'') (row_get r ''FORMULARY_TIER'')"

text \<open>The list of line 75, for a row that is kept.\<close>

definition rule_of :: "row \<Rightarrow> jval \<Rightarrow> jval list" where
  "rule_of r rxcui =
     [JStr (py_str (contract_of r) @ ''-'' @ py_str (plan_of r)), rxcui,
      JStr [], JStr [], JStr [], cell (tier_of r),
      JBool (norm_bool (row_get_default r ''PRIOR_AUTHORIZATION_FLAG'' ''N'')),
      JBool (norm_bool (row_get_default r ''STEP_THERAPY_FLAG'' ''N'')),
      JBool (norm_bool (row_get_default r ''QUANTITY_LIMIT_FLAG'' ''N'')),
      JStr (or_empty (row_get r ''QL_QTY'')), JStr (or_empty (row_get r ''QL_DAYS'')),
      JStr [], JStr ''CMS-PUF'']"

text \<open>One round of the loop of lines 48 to 76.\<close>

definition row_step :: "env \<Rightarrow> istate \<Rightarrow> row \<Rightarrow> istate" where
  "row_step E st r =
     (let st1 = st\<lparr>n_in := n_in st + 1\<rparr> in
      if \<not> str_truthy (contract_of r) \<or> \<not> str_truthy (plan_of r)
         \<or> ndc_of r = [] \<or> \<not> str_truthy (tier_of r)
      then st1
      else
        (case ndc_to_rxcui E (rs st1) (ndc_of r) of
           (rxcui, s') \<Rightarrow>
             if \<not> py_truthy rxcui then st1\<lparr>rs := s'\<rparr>
             else st1\<lparr>rs := s', out := out st1 @ [rule_of r rxcui], n_out := n_out st1 + 1\<rparr>))"

text \<open>
  \<open>ingest_to_rules\<close>: the output file is opened for writing, which empties it, and
  the header is written, before the generator runs its first line. The result is
  the returned pair or the exception that escapes, then the rows in the output
  file when it is closed, then the resolver's state. The rows come one at a time
  in the source; as the reader does not depend on the resolver, taking them all
  first gives the same run.
\<close>

definition ingest_to_rules ::
  "env \<Rightarrow> rstate \<Rightarrow> input \<Rightarrow> (error + nat \<times> nat) \<times> jval list list \<times> rstate" where
  "ingest_to_rules E s inp =
     (case open_formulary_rows inp of
        (rows, err) \<Rightarrow>
          (let st = foldl (row_step E) \<lparr>rs = s, out = [header], n_in = 0, n_out = 0\<rparr> rows in
           ((case err of None \<Rightarrow> Inr (n_in st, n_out st) | Some e \<Rightarrow> Inl e), out st, rs st)))"

section \<open>Sample environments and states\<close>

text \<open>The body the lookup service sends, with \<open>ids\<close> under \<open>idGroup.rxnormId\<close>.\<close>

definition rxnorm_body :: "jval \<Rightarrow> jval" where
  "rxnorm_body ids = JObj [(''idGroup'', JObj [(''rxnormId'', ids)])]"

text \<open>A service that answers at once, one that fails twice first, one that is
  down, and one that sends the identifier as a bare string.\<close>

definition env_ok :: env where
  "env_ok = \<lparr>net = (\<lambda>n u. Body (rxnorm_body (JArr [JStr ''617314'']))), wr = (\<lambda>n. Succeeds)\<rparr>"

definition env_flaky :: env where
  "env_flaky =
     \<lparr>net = (\<lambda>n u. if n < 2 then Raises else Body (rxnorm_body (JArr [JStr ''617314'']))),
      wr = (\<lambda>n. Succeeds)\<rparr>"

definition env_down :: env where
  "env_down = \<lparr>net = (\<lambda>n u. Raises), wr = (\<lambda>n. Succeeds)\<rparr>"

definition env_string_id :: env where
  "env_string_id = \<lparr>net = (\<lambda>n u. Body (rxnorm_body (JStr ''617314''))), wr = (\<lambda>n. Succeeds)\<rparr>"

definition st_empty :: rstate where
  "st_empty = \<lparr>cache = Map.empty, disk = Missing, log = []\<rparr>"

definition st_hit :: rstate where
  "st_hit = \<lparr>cache = [''0071015523'' \<mapsto> JStr ''617314''], disk = Missing, log = []\<rparr>"

text \<open>The state after a lookup of \<open>0071-0155-23\<close> against the service that is down,
  starting from \<open>st_empty\<close>.\<close>

definition st_down :: rstate where
  "st_down =
     \<lparr>cache = [''0071015523'' \<mapsto> JNull], disk = Doc [''0071015523'' \<mapsto> JNull],
      log = [Fetch (url_of ''0071015523''), Sleep, Fetch (url_of ''0071015523''), Sleep,
             Fetch (url_of ''0071015523''), Sleep, Save]\<rparr>"

text \<open>A service that knows one code only, and three lines of a flat file: a
  complete one with that code, one with an empty tier, one with another code.\<close>

definition env_one_code :: env where
  "env_one_code =
     \<lparr>net = (\<lambda>n u. if u = url_of ''0071015523'' then Body (rxnorm_body (JArr [JStr ''617314'']))
                     else Body (rxnorm_body JNull)),
      wr = (\<lambda>n. Succeeds)\<rparr>"

definition sample_rows :: "csv_row list" where
  "sample_rows =
     [CsvRow [(''CONTRACT_ID'', Some ''H1234''), (''PLAN_ID'', Some ''001''),
              (''NDC'', Some ''0071-0155-23''), (''TIER'', Some ''2''),
              (''PRIOR_AUTHORIZATION_FLAG'', Some '' y '')] [],
      CsvRow [(''CONTRACT_ID'', Some ''H1234''), (''PLAN_ID'', Some ''001''),
              (''NDC'', Some ''0071-0155-23''), (''TIER'', Some []),
              (''PRIOR_AUTHORIZATION_FLAG'', Some ''N'')] [],
      CsvRow [(''CONTRACT_ID'', Some ''H1234''), (''PLAN_ID'', Some ''001''),
              (''NDC'', Some ''99999-9999-99''), (''TIER'', Some ''1''),
              (''PRIOR_AUTHORIZATION_FLAG'', None)] []]"

definition row_ok :: row where
  "row_ok = strip_row [(''CONTRACT_ID'', Some ''H1234''), (''PLAN_ID'', Some ''001''),
              (''NDC'', Some ''0071-0155-23''), (''TIER'', Some ''2''),
              (''PRIOR_AUTHORIZATION_FLAG'', Some '' y '')]"

text \<open>The same row with a tier that is one no-break space, as the reader gives
  it, and with a code that is a no-break space between two dashes.\<close>

definition nbsp_tier_rows :: "csv_row list" where
  "nbsp_tier_rows =
     [CsvRow [(''CONTRACT_ID'', Some ''H1234''), (''PLAN_ID'', Some ''001''),
              (''NDC'', Some ''0071-0155-23''), (''TIER'', Some [CHR 0xA0])] []]"

definition row_nbsp_code :: row where
  "row_nbsp_code = strip_row [(''CONTRACT_ID'', Some ''H1234''), (''PLAN_ID'', Some ''001''),
              (''NDC'', Some [CHR ''-'', CHR 0xA0, CHR ''-'']), (''TIER'', Some ''2'')]"

definition ist_start :: istate where
  "ist_start = \<lparr>rs = st_empty, out = [header], n_in = 0, n_out = 0\<rparr>"

text \<open>An archive with two members, neither of them a formulary table.\<close>

definition no_rows :: "string \<Rightarrow> csv_row list" where
  "no_rows n = []"

definition zip_without_table :: input where
  "zip_without_table = Zip [''readme.txt'', ''plan_info.csv''] no_rows"

section \<open>The conditions in the specification's words\<close>

text \<open>A column is present with a non-empty value.\<close>

definition has_value :: "row \<Rightarrow> string \<Rightarrow> bool" where
  "has_value r k = (case r k of Some (Some (c # cs)) \<Rightarrow> True | _ \<Rightarrow> False)"

text \<open>
  Contract, plan, code and tier are each non-empty after the fallback from the
  first column name to the second.
\<close>

definition fields_present :: "row \<Rightarrow> bool" where
  "fields_present r =
     ((has_value r ''CONTRACT_ID'' \<or> has_value r ''PARENT_ORGANIZATION_CONTRACT_ID'')
      \<and> (has_value r ''PLAN_ID'' \<or> has_value r ''PBP'')
      \<and> ndc_of r \<noteq> []
      \<and> (has_value r ''TIER'' \<or> has_value r ''FORMULARY_TIER''))"

text \<open>The four fields are present and the code resolves to an identifier.\<close>

definition emits :: "env \<Rightarrow> rstate \<Rightarrow> row \<Rightarrow> bool" where
  "emits E s r = (fields_present r \<and> py_truthy (fst (ndc_to_rxcui E s (ndc_of r))))"

section \<open>Facts about the resolver\<close>

lemmas run_defs =
  ndc_to_rxcui_def py_strip_def remove_dashes_def py_isspace_def Let_def
  eval_nat_numeral save_def extract_rxcui_def url_of_def

lemma save_cache [simp]: "cache (save E s) = cache s"
  by (simp add: save_def split: write_outcome.splits)

lemma save_log [simp]: "log (save E s) = log s @ [Save]"
  by (simp add: save_def split: write_outcome.splits)

lemma save_disk_ok: "wr E (saves (log s)) = Succeeds \<Longrightarrow> disk (save E s) = Doc (cache s)"
  by (simp add: save_def)

lemma fetches_append [simp]: "fetches (xs @ ys) = fetches xs + fetches ys"
  by (simp add: fetches_def)

lemma saves_append [simp]: "saves (xs @ ys) = saves xs + saves ys"
  by (simp add: saves_def)

lemma fetches_simps [simp]:
  "fetches [] = 0" "fetches (Fetch u # l) = Suc (fetches l)"
  "fetches (Sleep # l) = fetches l" "fetches (Save # l) = fetches l"
  by (simp_all add: fetches_def)

lemma saves_simps [simp]:
  "saves [] = 0" "saves (Fetch u # l) = saves l"
  "saves (Sleep # l) = saves l" "saves (Save # l) = Suc (saves l)"
  by (simp_all add: saves_def)

text \<open>The loop leaves the key in the cache, mapped to the value it returns.\<close>

lemma attempts_cache:
  "attempts E key n s = (v, s') \<Longrightarrow> cache s' = (cache s)(key \<mapsto> v)"
  by (induction n arbitrary: s) (auto simp: Let_def split: response.splits option.splits)

lemma attempts_fetches:
  "attempts E key n s = (v, s') \<Longrightarrow> fetches (log s') \<le> fetches (log s) + n"
  by (induction n arbitrary: s) (fastforce simp: Let_def split: response.splits option.splits)+

lemma attempts_saves:
  "attempts E key n s = (v, s') \<Longrightarrow> saves (log s') = saves (log s) + 1"
  by (induction n arbitrary: s) (fastforce simp: Let_def split: response.splits option.splits)+

lemma attempts_disk:
  "attempts E key n s = (v, s') \<Longrightarrow> wr E (saves (log s)) = Succeeds \<Longrightarrow> disk s' = Doc (cache s')"
  by (induction n arbitrary: s)
     (fastforce simp: Let_def save_def split: response.splits option.splits)+

lemma resolve_hit:
  "py_strip (remove_dashes ndc) \<noteq> [] \<Longrightarrow> cache s (py_strip (remove_dashes ndc)) = Some c
     \<Longrightarrow> ndc_to_rxcui E s ndc = (if py_truthy c then c else JNull, s)"
  by (simp add: ndc_to_rxcui_def)

lemma resolve_miss:
  "py_strip (remove_dashes ndc) \<noteq> [] \<Longrightarrow> cache s (py_strip (remove_dashes ndc)) = None
     \<Longrightarrow> ndc_to_rxcui E s ndc = attempts E (py_strip (remove_dashes ndc)) 3 s"
  by (simp add: ndc_to_rxcui_def)

text \<open>After any resolution of a code with a non-empty key, the key is cached.\<close>

lemma resolve_cached:
  assumes "ndc_to_rxcui E s ndc = (v, s')" and "py_strip (remove_dashes ndc) \<noteq> []"
  shows "\<exists>c. cache s' (py_strip (remove_dashes ndc)) = Some c
           \<and> (if py_truthy c then c else JNull) = (if py_truthy v then v else JNull)"
proof (cases "cache s (py_strip (remove_dashes ndc))")
  case None
  with assms have "attempts E (py_strip (remove_dashes ndc)) 3 s = (v, s')"
    by (simp add: resolve_miss)
  then have "cache s' = (cache s)(py_strip (remove_dashes ndc) \<mapsto> v)"
    by (rule attempts_cache)
  then show ?thesis by simp
next
  case (Some c)
  with assms have "v = (if py_truthy c then c else JNull)" and "s' = s"
    by (simp_all add: resolve_hit)
  with Some show ?thesis by auto
qed

lemma resolve_fetches:
  assumes "ndc_to_rxcui E s ndc = (v, s')"
  shows "fetches (log s') \<le> fetches (log s) + 3"
  using assms attempts_fetches [of E "py_strip (remove_dashes ndc)" 3 s v s']
  by (auto simp: ndc_to_rxcui_def Let_def split: if_splits option.splits)

text \<open>The outcome of the writes has no part in the value, the cache or the events.\<close>

lemma attempts_wr_value:
  "fst (attempts (E\<lparr>wr := w\<rparr>) key n s) = fst (attempts E key n s)"
  by (induction n arbitrary: s) (auto simp: Let_def split: response.splits option.splits)

lemma attempts_wr_cache:
  "cache (snd (attempts (E\<lparr>wr := w\<rparr>) key n s)) = cache (snd (attempts E key n s))"
  by (induction n arbitrary: s) (auto simp: Let_def split: response.splits option.splits)

lemma attempts_wr_log:
  "log (snd (attempts (E\<lparr>wr := w\<rparr>) key n s)) = log (snd (attempts E key n s))"
  by (induction n arbitrary: s) (auto simp: Let_def split: response.splits option.splits)

lemma resolve_wr:
  "fst (ndc_to_rxcui (E\<lparr>wr := w\<rparr>) s ndc) = fst (ndc_to_rxcui E s ndc)
   \<and> cache (snd (ndc_to_rxcui (E\<lparr>wr := w\<rparr>) s ndc)) = cache (snd (ndc_to_rxcui E s ndc))
   \<and> log (snd (ndc_to_rxcui (E\<lparr>wr := w\<rparr>) s ndc)) = log (snd (ndc_to_rxcui E s ndc))"
  by (simp add: ndc_to_rxcui_def Let_def attempts_wr_value attempts_wr_cache attempts_wr_log
        split: option.splits)

text \<open>One round of the loop.\<close>

lemma attempt_failed:
  "failed (net E (fetches (log s)) (url_of key)) \<Longrightarrow>
   attempts E key (Suc n) s = attempts E key n (s\<lparr>log := log s @ [Fetch (url_of key), Sleep]\<rparr>)"
  by (cases "net E (fetches (log s)) (url_of key)") (auto simp: Let_def)

lemma attempt_answered:
  "net E (fetches (log s)) (url_of key) = Body data \<Longrightarrow> extract_rxcui data = Some v \<Longrightarrow>
   attempts E key (Suc n) s
     = (v, save E (s\<lparr>log := log s @ [Fetch (url_of key)], cache := (cache s)(key \<mapsto> v)\<rparr>))"
  by (simp add: Let_def)

lemma extract_array:
  "map_of body ''idGroup'' = Some (JObj g) \<Longrightarrow> map_of g ''rxnormId'' = Some (JArr (x # xs))
    \<Longrightarrow> extract_rxcui (JObj body) = Some x"
  by (simp add: extract_rxcui_def)

text \<open>No resolution, of any code, removes or changes an entry of the cache.\<close>

lemma resolve_keeps_entry:
  assumes "cache t key = Some c"
  shows "cache (snd (ndc_to_rxcui D t ndc')) key = Some c"
proof (cases "py_strip (remove_dashes ndc') = [] \<or> cache t (py_strip (remove_dashes ndc')) \<noteq> None")
  case True
  then have "snd (ndc_to_rxcui D t ndc') = t"
    by (auto simp: ndc_to_rxcui_def Let_def)
  with assms show ?thesis by simp
next
  case False
  then have run: "ndc_to_rxcui D t ndc' = attempts D (py_strip (remove_dashes ndc')) 3 t"
    by (simp add: resolve_miss)
  from False assms have "py_strip (remove_dashes ndc') \<noteq> key" by auto
  moreover have "cache (snd (ndc_to_rxcui D t ndc'))
      = (cache t)(py_strip (remove_dashes ndc') \<mapsto> fst (ndc_to_rxcui D t ndc'))"
    unfolding run by (rule attempts_cache) simp
  ultimately show ?thesis using assms by simp
qed

lemma key_sample: "py_strip (remove_dashes ''0071-0155-23'') = ''0071015523''"
  by (simp add: py_strip_def remove_dashes_def py_isspace_def)

section \<open>Facts about strings and flags\<close>

lemmas case_defs =
  py_upper_def py_lower_def upper_str_def upper_char_def lower_char_def
  ascii_lowercase_def ascii_uppercase_def latin1_lowercase_def latin1_uppercase_def

lemma map_of_zip_dom: "map_of (zip xs ys) c = Some u \<Longrightarrow> c \<in> set xs"
  by (meson map_of_SomeD set_zip_leftD)

lemma upper_char_changes:
  assumes "upper_char c \<noteq> c"
  shows "c \<in> set (ascii_lowercase @ latin1_lowercase)"
proof (cases "map_of (zip (ascii_lowercase @ latin1_lowercase)
                          (ascii_uppercase @ latin1_uppercase)) c")
  case None
  with assms show ?thesis by (simp add: upper_char_def)
next
  case (Some u)
  then show ?thesis by (rule map_of_zip_dom)
qed

lemma letter_no_space: "c \<in> set (ascii_lowercase @ latin1_lowercase) \<Longrightarrow> \<not> py_isspace c"
  by (auto simp: py_isspace_def ascii_lowercase_def latin1_lowercase_def)

lemma space_upper: "py_isspace c \<Longrightarrow> upper_str c = [c]"
proof -
  assume sp: "py_isspace c"
  then have "c \<noteq> CHR 0xDF" by (auto simp: py_isspace_def)
  moreover from sp have "upper_char c = c"
    using upper_char_changes letter_no_space by blast
  ultimately show ?thesis by (simp add: upper_str_def)
qed

lemma py_upper_Cons: "py_upper (c # cs) = upper_str c @ py_upper cs"
  by (simp add: py_upper_def)

lemma py_upper_snoc: "py_upper (cs @ [c]) = py_upper cs @ upper_str c"
  by (simp add: py_upper_def)

text \<open>The key of a code is empty exactly when the code is made of dashes and
  white space only.\<close>

lemma strip_empty_iff: "py_strip xs = [] \<longleftrightarrow> (\<forall>c \<in> set xs. py_isspace c)"
proof
  assume "py_strip xs = []"
  then have "\<forall>c \<in> set (dropWhile py_isspace xs). py_isspace c"
    by (simp add: py_strip_def dropWhile_eq_Nil_conv)
  then have "dropWhile py_isspace xs = []"
    by (metis hd_dropWhile list.set_sel(1))
  then show "\<forall>c \<in> set xs. py_isspace c"
    by (simp add: dropWhile_eq_Nil_conv)
next
  assume "\<forall>c \<in> set xs. py_isspace c"
  then have d: "dropWhile py_isspace xs = []"
    using dropWhile_eq_Nil_conv [of py_isspace xs] by blast
  show "py_strip xs = []"
    by (simp only: py_strip_def d rev.simps dropWhile.simps)
qed

lemma key_empty_iff:
  "py_strip (remove_dashes ndc) = [] \<longleftrightarrow> (\<forall>c \<in> set ndc. c = CHR ''-'' \<or> py_isspace c)"
  by (auto simp: strip_empty_iff remove_dashes_def)

text \<open>\<open>sub in s\<close> is the library's contiguous-sublist relation.\<close>

lemma py_in_sublist: "py_in sub s = sublist sub s"
  by (induction s) (auto simp: sublist_Cons_right)

text \<open>Stripping removes the white space around a block that neither starts nor
  ends with white space, and every string is such a block with white space around.\<close>

lemma strip_padded:
  assumes "\<forall>c \<in> set pre. py_isspace c" and "\<forall>c \<in> set post. py_isspace c"
    and "t \<noteq> []" and "\<not> py_isspace (hd t)" and "\<not> py_isspace (last t)"
  shows "py_strip (pre @ t @ post) = t"
proof -
  from assms(1,3,4) have "dropWhile py_isspace (pre @ t @ post) = t @ post"
    by (cases t) (simp_all add: dropWhile_append)
  moreover from assms(2,3,5) have "dropWhile py_isspace (rev post @ rev t) = rev t"
    by (cases t rule: rev_cases) (simp_all add: dropWhile_append)
  ultimately show ?thesis by (simp add: py_strip_def)
qed

lemma strip_decompose:
  "\<exists>pre post. v = pre @ py_strip v @ post
      \<and> (\<forall>c \<in> set pre. py_isspace c) \<and> (\<forall>c \<in> set post. py_isspace c)"
proof -
  let ?d = "dropWhile py_isspace v"
  have "rev ?d = takeWhile py_isspace (rev ?d) @ dropWhile py_isspace (rev ?d)" by simp
  then have "?d = rev (dropWhile py_isspace (rev ?d)) @ rev (takeWhile py_isspace (rev ?d))"
    by (metis rev_append rev_rev_ident)
  then have "v = takeWhile py_isspace v @ py_strip v @ rev (takeWhile py_isspace (rev ?d))"
    by (metis py_strip_def takeWhile_dropWhile_id)
  moreover have "\<forall>c \<in> set (takeWhile py_isspace v). py_isspace c"
    by (auto dest: set_takeWhileD)
  moreover have "\<forall>c \<in> set (rev (takeWhile py_isspace (rev ?d))). py_isspace c"
    by (auto dest: set_takeWhileD)
  ultimately show ?thesis by blast
qed

lemma token_ends:
  assumes "py_upper t \<in> {''Y'', ''YES'', ''TRUE'', ''T'', ''1''}"
  shows "t \<noteq> [] \<and> \<not> py_isspace (hd t) \<and> \<not> py_isspace (last t)"
proof -
  from assms have ne: "t \<noteq> []" by (auto simp: py_upper_def)
  have "\<not> py_isspace (hd t)"
  proof
    assume sp: "py_isspace (hd t)"
    from ne obtain c cs where t: "t = c # cs" by (cases t) auto
    with sp have "py_upper t = c # py_upper cs" by (simp add: py_upper_Cons space_upper)
    with assms have "c \<in> {CHR ''Y'', CHR ''T'', CHR ''1''}" by auto
    with sp t show False by (auto simp: py_isspace_def)
  qed
  moreover have "\<not> py_isspace (last t)"
  proof
    assume sp: "py_isspace (last t)"
    from ne obtain c cs where t: "t = cs @ [c]" by (cases t rule: rev_cases) auto
    with sp have "py_upper t = py_upper cs @ [c]" by (simp add: py_upper_snoc space_upper)
    with assms have "c \<in> {CHR ''Y'', CHR ''S'', CHR ''E'', CHR ''T'', CHR ''1''}"
      by (auto simp: append_eq_Cons_conv)
    with sp t show False by (auto simp: py_isspace_def)
  qed
  ultimately show ?thesis using ne by simp
qed

text \<open>A flag value is true exactly when it is one of the five tokens, in any
  mix of cases, with white space around it.\<close>

lemma norm_bool_padded:
  "norm_bool (Some v) =
     (\<exists>pre t post. v = pre @ t @ post \<and> (\<forall>c \<in> set pre. py_isspace c)
        \<and> (\<forall>c \<in> set post. py_isspace c)
        \<and> py_upper t \<in> {''Y'', ''YES'', ''TRUE'', ''T'', ''1''})"
proof
  assume "norm_bool (Some v)"
  then have "py_upper (py_strip v) \<in> {''Y'', ''YES'', ''TRUE'', ''T'', ''1''}"
    by (simp add: norm_bool_def)
  with strip_decompose [of v]
  show "\<exists>pre t post. v = pre @ t @ post \<and> (\<forall>c \<in> set pre. py_isspace c)
        \<and> (\<forall>c \<in> set post. py_isspace c)
        \<and> py_upper t \<in> {''Y'', ''YES'', ''TRUE'', ''T'', ''1''}"
    by blast
next
  assume "\<exists>pre t post. v = pre @ t @ post \<and> (\<forall>c \<in> set pre. py_isspace c)
        \<and> (\<forall>c \<in> set post. py_isspace c)
        \<and> py_upper t \<in> {''Y'', ''YES'', ''TRUE'', ''T'', ''1''}"
  then obtain pre t post where v: "v = pre @ t @ post"
    and pre: "\<forall>c \<in> set pre. py_isspace c" and post: "\<forall>c \<in> set post. py_isspace c"
    and t: "py_upper t \<in> {''Y'', ''YES'', ''TRUE'', ''T'', ''1''}"
    by blast
  from token_ends [OF t] have "py_strip v = t"
    unfolding v using pre post by (intro strip_padded) simp_all
  with t show "norm_bool (Some v)" by (simp add: norm_bool_def)
qed

lemma flag_of_string:
  "norm_bool (Some v) = (py_upper (py_strip v) \<in> {''Y'', ''YES'', ''TRUE'', ''T'', ''1''})"
  by (simp add: norm_bool_def)

lemma default_false: "\<not> norm_bool (Some ''N'')"
  by (simp add: norm_bool_def py_strip_def py_isspace_def case_defs)

lemma none_false: "\<not> norm_bool None"
  by (simp add: norm_bool_def py_strip_def py_isspace_def case_defs)

section \<open>Facts about the ingestion loop\<close>

lemmas ingest_defs =
  ingest_to_rules_def open_formulary_rows_def strip_row_def row_step_def
  contract_of_def plan_of_def ndc_of_def tier_of_def row_get_def row_get_default_def str_or_def
  rule_of_def norm_bool_def

lemma str_or_truthy: "str_truthy (str_or a b) = (str_truthy a \<or> str_truthy b)"
  by (simp add: str_or_def)

lemma row_get_truthy: "str_truthy (row_get r k) = has_value r k"
  by (cases "row_get r k" rule: str_truthy.cases)
     (auto simp: row_get_def has_value_def split: option.splits list.splits)

lemma row_step_counts:
  "n_in (row_step E st r) = n_in st + 1
   \<and> (n_out (row_step E st r) = n_out st \<or> n_out (row_step E st r) = n_out st + 1)"
  by (auto simp: row_step_def Let_def split: prod.splits)

lemma row_step_out:
  "length (out (row_step E st r)) + n_out st = length (out st) + n_out (row_step E st r)"
  by (auto simp: row_step_def Let_def split: prod.splits)

text \<open>The loop invariant: every row is counted as read, a row is written with
  each count of one, and no count goes down.\<close>

lemma foldl_counts:
  "n_in (foldl (row_step E) st rows) = n_in st + length rows
   \<and> n_out (foldl (row_step E) st rows) \<le> n_out st + length rows
   \<and> n_out st \<le> n_out (foldl (row_step E) st rows)
   \<and> length (out (foldl (row_step E) st rows)) + n_out st
       = length (out st) + n_out (foldl (row_step E) st rows)"
proof (induction rows arbitrary: st)
  case Nil
  then show ?case by simp
next
  case (Cons r rows)
  from Cons [of "row_step E st r"] row_step_counts [of E st r] row_step_out [of E st r]
  show ?case by auto
qed

text \<open>The sample row, column by column.\<close>

lemma row_ok_cols:
  "row_ok ''CONTRACT_ID'' = Some (Some ''H1234'')" "row_ok ''PLAN_ID'' = Some (Some ''001'')"
  "row_ok ''NDC'' = Some (Some ''0071-0155-23'')" "row_ok ''TIER'' = Some (Some ''2'')"
  "row_ok ''PRIOR_AUTHORIZATION_FLAG'' = Some (Some ''y'')"
  "row_ok ''STEP_THERAPY_FLAG'' = None" "row_ok ''QUANTITY_LIMIT_FLAG'' = None"
  "row_ok ''QL_QTY'' = None" "row_ok ''QL_DAYS'' = None"
  by (simp_all add: row_ok_def strip_row_def py_strip_def py_isspace_def)

lemma ndc_row_ok: "ndc_of row_ok = ''0071015523''"
  by (simp add: ndc_of_def row_get_def str_or_def row_ok_cols remove_dashes_def)

lemma resolve_row_ok: "fst (ndc_to_rxcui env_one_code st_empty ''0071015523'') = JStr ''617314''"
  by (simp add: env_one_code_def st_empty_def rxnorm_body_def run_defs)

text \<open>No-break spaces: a tier that is one is stripped to nothing by the reader, so
  the row is read and not written; a code that is one between two dashes has an
  empty key, so the resolver answers "not found" without a request.\<close>

lemma nbsp_tier_dropped:
  "ingest_to_rules env_ok st_empty (Flat nbsp_tier_rows) = (Inr (1, 0), [header], st_empty)"
  by (simp add: ingest_defs nbsp_tier_rows_def py_strip_def py_isspace_def remove_dashes_def
        Let_def)

lemma row_nbsp_code_cols:
  "row_nbsp_code ''CONTRACT_ID'' = Some (Some ''H1234'')"
  "row_nbsp_code ''PLAN_ID'' = Some (Some ''001'')"
  "row_nbsp_code ''NDC'' = Some (Some [CHR ''-'', CHR 0xA0, CHR ''-''])"
  "row_nbsp_code ''TIER'' = Some (Some ''2'')"
  by (simp_all add: row_nbsp_code_def strip_row_def py_strip_def py_isspace_def)

lemma ndc_row_nbsp_code: "ndc_of row_nbsp_code = [CHR 0xA0]"
  by (simp add: ndc_of_def row_get_def str_or_def row_nbsp_code_cols remove_dashes_def)

lemma resolve_nbsp: "ndc_to_rxcui env_ok st_empty [CHR 0xA0] = (JNull, st_empty)"
  by (simp add: ndc_to_rxcui_def py_strip_def remove_dashes_def py_isspace_def)

section \<open>The claims\<close>

text \<open>
  C9. An input is empty once its dashes are removed and the white space around it
  is stripped exactly when it is made of dashes and white space only. Such an
  input resolves to "not found", and the resolver's whole state (the cache in
  memory, the cache file, the events, so also the GETs) is what it was.
\<close>

theorem empty_code_not_found:
  "(py_strip (remove_dashes ndc) = [] \<longleftrightarrow> (\<forall>c \<in> set ndc. c = CHR ''-'' \<or> py_isspace c))
   \<and> (py_strip (remove_dashes ndc) = [] \<longrightarrow> ndc_to_rxcui E s ndc = (JNull, s))"
proof -
  have "ndc_to_rxcui E s ndc = (JNull, s)" if "py_strip (remove_dashes ndc) = []"
    using that by (simp add: ndc_to_rxcui_def)
  then show ?thesis
    using key_empty_iff [of ndc] by blast
qed

theorem empty_code_not_found_witness:
  "py_strip (remove_dashes [CHR 0xA0, CHR ''-'', CHR 0x85]) = []
     \<and> ndc_to_rxcui env_ok st_empty [CHR 0xA0, CHR ''-'', CHR 0x85] = (JNull, st_empty)
     \<and> ndc_to_rxcui env_ok st_empty '' - - '' = (JNull, st_empty)"
proof -
  have "\<forall>c \<in> set [CHR 0xA0, CHR ''-'', CHR 0x85]. c = CHR ''-'' \<or> py_isspace c"
    and "\<forall>c \<in> set '' - - ''. c = CHR ''-'' \<or> py_isspace c"
    by (simp_all add: py_isspace_def)
  with empty_code_not_found [of "[CHR 0xA0, CHR ''-'', CHR 0x85]" env_ok st_empty]
       empty_code_not_found [of "'' - - ''" env_ok st_empty]
  show ?thesis by blast
qed

text \<open>
  C3. Resolving a code twice in a row: a key that is in the cache, whatever it is
  mapped to, is answered from the cache with the state untouched (no GET, no sleep,
  no write); after the first resolution the key is in the cache, so the second one
  changes nothing, and the two together make at most the three GETs of one lookup.
\<close>

theorem resolve_twice_one_lookup:
  assumes "ndc_to_rxcui E s ndc = (v1, s1)" and "ndc_to_rxcui E' s1 ndc = (v2, s2)"
  shows "(\<forall>D t c. py_strip (remove_dashes ndc) \<noteq> []
              \<and> cache t (py_strip (remove_dashes ndc)) = Some c
            \<longrightarrow> ndc_to_rxcui D t ndc = (if py_truthy c then c else JNull, t))
     \<and> (py_strip (remove_dashes ndc) \<noteq> [] \<longrightarrow> py_strip (remove_dashes ndc) \<in> dom (cache s1))
     \<and> s2 = s1 \<and> v2 = (if py_truthy v1 then v1 else JNull)
     \<and> fetches (log s2) \<le> fetches (log s) + 3"
proof (cases "py_strip (remove_dashes ndc) = []")
  case True
  with assms show ?thesis by (simp add: ndc_to_rxcui_def)
next
  case False
  from resolve_cached [OF assms(1) False] obtain c where
    c: "cache s1 (py_strip (remove_dashes ndc)) = Some c"
       "(if py_truthy c then c else JNull) = (if py_truthy v1 then v1 else JNull)"
    by blast
  from resolve_hit [OF False c(1), of E'] assms(2) c(2)
  have second: "s2 = s1" "v2 = (if py_truthy v1 then v1 else JNull)"
    by simp_all
  from resolve_fetches [OF assms(1)] have "fetches (log s1) \<le> fetches (log s) + 3" .
  with second c(1) show ?thesis
    by (auto simp: resolve_hit)
qed

theorem resolve_twice_one_lookup_witness:
  "ndc_to_rxcui env_flaky st_empty ''0071-0155-23''
     = (JStr ''617314'',
        \<lparr>cache = [''0071015523'' \<mapsto> JStr ''617314''],
         disk = Doc [''0071015523'' \<mapsto> JStr ''617314''],
         log = [Fetch (url_of ''0071015523''), Sleep, Fetch (url_of ''0071015523''), Sleep,
                Fetch (url_of ''0071015523''), Save]\<rparr>)
   \<and> snd (ndc_to_rxcui env_ok (snd (ndc_to_rxcui env_flaky st_empty ''0071-0155-23'')) ''0071-0155-23'')
     = snd (ndc_to_rxcui env_flaky st_empty ''0071-0155-23'')"
proof -
  have first: "ndc_to_rxcui env_flaky st_empty ''0071-0155-23''
     = (JStr ''617314'',
        \<lparr>cache = [''0071015523'' \<mapsto> JStr ''617314''],
         disk = Doc [''0071015523'' \<mapsto> JStr ''617314''],
         log = [Fetch (url_of ''0071015523''), Sleep, Fetch (url_of ''0071015523''), Sleep,
                Fetch (url_of ''0071015523''), Save]\<rparr>)"
    by (simp add: env_flaky_def st_empty_def rxnorm_body_def ndc_to_rxcui_def py_strip_def
          remove_dashes_def py_isspace_def Let_def eval_nat_numeral save_def extract_rxcui_def)
  from resolve_twice_one_lookup [where E = env_flaky and s = st_empty
      and ndc = "''0071-0155-23''" and E' = env_ok, OF surjective_pairing surjective_pairing]
  have "snd (ndc_to_rxcui env_ok (snd (ndc_to_rxcui env_flaky st_empty ''0071-0155-23''))
          ''0071-0155-23'') = snd (ndc_to_rxcui env_flaky st_empty ''0071-0155-23'')"
    by blast
  with first show ?thesis by blast
qed

text \<open>
  C4. A code that a lookup has cached as "not found", with the cache file written,
  is still "not found" after the process starts again and loads the file: the next
  resolution returns \<open>None\<close> and leaves the state as it is, so no GET is made, and
  no later resolution of any code changes the entry.
\<close>

theorem negative_cache_roundtrip:
  assumes key: "py_strip (remove_dashes ndc) = key" "key \<noteq> []"
    and miss: "cache s key = None"
    and first: "ndc_to_rxcui E s ndc = (JNull, s1)"
    and written: "wr E (saves (log s)) = Succeeds"
  shows "cache s1 key = Some JNull \<and> disk s1 = Doc (cache s1)
     \<and> ndc_to_rxcui E' (restart s1) ndc = (JNull, restart s1)
     \<and> (\<forall>D ndc'. cache (snd (ndc_to_rxcui D (restart s1) ndc')) key = Some JNull)"
proof -
  from key miss first have run: "attempts E key 3 s = (JNull, s1)"
    by (simp add: resolve_miss)
  from attempts_cache [OF run] have c: "cache s1 key = Some JNull" by simp
  from attempts_disk [OF run written] have d: "disk s1 = Doc (cache s1)" .
  from c d have r: "cache (restart s1) key = Some JNull" by (simp add: restart_def)
  have "ndc_to_rxcui E' (restart s1) ndc = (JNull, restart s1)"
    using resolve_hit [of ndc "restart s1" JNull E'] key r by simp
  with c d r show ?thesis by (simp add: resolve_keeps_entry)
qed

theorem negative_cache_roundtrip_witness:
  "ndc_to_rxcui env_down st_empty ''0071-0155-23'' = (JNull, st_down)
   \<and> ndc_to_rxcui env_ok (restart st_down) ''0071-0155-23'' = (JNull, restart st_down)"
proof -
  have first: "ndc_to_rxcui env_down st_empty ''0071-0155-23'' = (JNull, st_down)"
    by (simp add: env_down_def st_empty_def st_down_def ndc_to_rxcui_def key_sample Let_def
          eval_nat_numeral save_def)
  have miss: "cache st_empty ''0071015523'' = None" by (simp add: st_empty_def)
  have written: "wr env_down (saves (log st_empty)) = Succeeds" by (simp add: env_down_def)
  from negative_cache_roundtrip [OF key_sample _ miss first written, where E' = env_ok] first
  show ?thesis by simp
qed

text \<open>
  C8. A code that is not cached, whose first two attempts fail and whose third
  brings a body with a non-empty array under \<open>idGroup.rxnormId\<close>: the resolver
  returns the array's first element after exactly three GETs and two sleeps, stores
  that element under the key, and calls \<open>_save\<close> once. No resolution makes more
  than three GETs.
\<close>

theorem third_attempt_succeeds:
  assumes key: "py_strip (remove_dashes ndc) = key" "key \<noteq> []"
    and miss: "cache s key = None"
    and f1: "failed (net E (fetches (log s)) (url_of key))"
    and f2: "failed (net E (fetches (log s) + 1) (url_of key))"
    and ok: "net E (fetches (log s) + 2) (url_of key) = Body (JObj body)"
            "map_of body ''idGroup'' = Some (JObj g)"
            "map_of g ''rxnormId'' = Some (JArr (x # xs))"
  shows "fst (ndc_to_rxcui E s ndc) = x
     \<and> log (snd (ndc_to_rxcui E s ndc))
         = log s @ [Fetch (url_of key), Sleep, Fetch (url_of key), Sleep, Fetch (url_of key), Save]
     \<and> fetches (log (snd (ndc_to_rxcui E s ndc))) = fetches (log s) + 3
     \<and> saves (log (snd (ndc_to_rxcui E s ndc))) = saves (log s) + 1
     \<and> cache (snd (ndc_to_rxcui E s ndc)) = (cache s)(key \<mapsto> x)
     \<and> (\<forall>D t c. fetches (log (snd (ndc_to_rxcui D t c))) \<le> fetches (log t) + 3)"
proof -
  let ?s1 = "s\<lparr>log := log s @ [Fetch (url_of key), Sleep]\<rparr>"
  let ?s2 = "?s1\<lparr>log := log ?s1 @ [Fetch (url_of key), Sleep]\<rparr>"
  have "ndc_to_rxcui E s ndc = attempts E key 3 s"
    using key miss by (simp add: resolve_miss)
  also have "\<dots> = attempts E key 2 ?s1"
    using attempt_failed [OF f1, of 2] by (simp add: eval_nat_numeral)
  also have "\<dots> = attempts E key 1 ?s2"
    using attempt_failed [of E ?s1 key 1] f2 by (simp add: eval_nat_numeral)
  also have "\<dots> = (x, save E (?s2\<lparr>log := log ?s2 @ [Fetch (url_of key)],
                                   cache := (cache ?s2)(key \<mapsto> x)\<rparr>))"
    using attempt_answered [of E ?s2 key "JObj body" x 0] ok extract_array [OF ok(2,3)]
    by (simp add: eval_nat_numeral)
  finally have run: "ndc_to_rxcui E s ndc
      = (x, save E (s\<lparr>log := log s @ [Fetch (url_of key), Sleep, Fetch (url_of key), Sleep,
                                      Fetch (url_of key)],
                     cache := (cache s)(key \<mapsto> x)\<rparr>))"
    by simp
  have bound: "fetches (log (snd (ndc_to_rxcui D t c))) \<le> fetches (log t) + 3" for D t c
    by (rule resolve_fetches) (rule surjective_pairing)
  show ?thesis unfolding run using bound by simp
qed

theorem third_attempt_succeeds_witness:
  "ndc_to_rxcui env_flaky st_empty ''0071-0155-23''
     = (JStr ''617314'',
        \<lparr>cache = [''0071015523'' \<mapsto> JStr ''617314''],
         disk = Doc [''0071015523'' \<mapsto> JStr ''617314''],
         log = [Fetch (url_of ''0071015523''), Sleep, Fetch (url_of ''0071015523''), Sleep,
                Fetch (url_of ''0071015523''), Save]\<rparr>)
   \<and> fetches (log (snd (ndc_to_rxcui env_flaky st_empty ''0071-0155-23''))) = 3
   \<and> saves (log (snd (ndc_to_rxcui env_flaky st_empty ''0071-0155-23''))) = 1"
proof -
  have run: "ndc_to_rxcui env_flaky st_empty ''0071-0155-23''
     = (JStr ''617314'',
        \<lparr>cache = [''0071015523'' \<mapsto> JStr ''617314''],
         disk = Doc [''0071015523'' \<mapsto> JStr ''617314''],
         log = [Fetch (url_of ''0071015523''), Sleep, Fetch (url_of ''0071015523''), Sleep,
                Fetch (url_of ''0071015523''), Save]\<rparr>)"
    by (simp add: env_flaky_def st_empty_def rxnorm_body_def ndc_to_rxcui_def key_sample Let_def
          eval_nat_numeral save_def extract_rxcui_def)
  have m: "cache st_empty ''0071015523'' = None" by (simp add: st_empty_def)
  have f1: "failed (net env_flaky (fetches (log st_empty)) (url_of ''0071015523''))"
    by (simp add: env_flaky_def st_empty_def)
  have f2: "failed (net env_flaky (fetches (log st_empty) + 1) (url_of ''0071015523''))"
    by (simp add: env_flaky_def st_empty_def)
  have ok: "net env_flaky (fetches (log st_empty) + 2) (url_of ''0071015523'')
      = Body (JObj [(''idGroup'', JObj [(''rxnormId'', JArr [JStr ''617314''])])])"
    by (simp add: env_flaky_def st_empty_def rxnorm_body_def)
  have g: "map_of [(''idGroup'', JObj [(''rxnormId'', JArr [JStr ''617314''])])] ''idGroup''
      = Some (JObj [(''rxnormId'', JArr [JStr ''617314''])])"
    by simp
  have i: "map_of [(''rxnormId'', JArr [JStr ''617314''])] ''rxnormId''
      = Some (JArr [JStr ''617314''])"
    by simp
  have l: "fetches (log st_empty) = 0" "saves (log st_empty) = 0"
    by (simp_all add: st_empty_def)
  from third_attempt_succeeds [OF key_sample _ m f1 f2 ok g i] l run show ?thesis
    by simp
qed

text \<open>
  C5, as the code has it. A resolution of a code with a non-empty key that misses
  the cache calls \<open>_save\<close> exactly once, and when that write succeeds the file
  holds the whole cache, new entry included. A resolution that hits the cache
  leaves the state as it is: it writes nothing. Whatever the writes do, the value
  returned and the cache in memory are the same.
\<close>

theorem resolve_persistence:
  assumes key: "py_strip (remove_dashes ndc) = key" "key \<noteq> []"
  shows "(cache s key = None \<longrightarrow>
            saves (log (snd (ndc_to_rxcui E s ndc))) = saves (log s) + 1
          \<and> (wr E (saves (log s)) = Succeeds \<longrightarrow>
               disk (snd (ndc_to_rxcui E s ndc)) = Doc (cache (snd (ndc_to_rxcui E s ndc)))))
     \<and> (cache s key \<noteq> None \<longrightarrow> snd (ndc_to_rxcui E s ndc) = s)
     \<and> fst (ndc_to_rxcui (E\<lparr>wr := w\<rparr>) s ndc) = fst (ndc_to_rxcui E s ndc)
     \<and> cache (snd (ndc_to_rxcui (E\<lparr>wr := w\<rparr>) s ndc)) = cache (snd (ndc_to_rxcui E s ndc))"
proof -
  have a: "saves (log (snd (ndc_to_rxcui E s ndc))) = saves (log s) + 1"
    if "cache s key = None"
    using that key attempts_saves [of E key 3 s, OF surjective_pairing]
    by (simp add: resolve_miss)
  have b: "disk (snd (ndc_to_rxcui E s ndc)) = Doc (cache (snd (ndc_to_rxcui E s ndc)))"
    if "cache s key = None" "wr E (saves (log s)) = Succeeds"
    using that key attempts_disk [of E key 3 s, OF surjective_pairing]
    by (simp add: resolve_miss)
  have c: "snd (ndc_to_rxcui E s ndc) = s" if "cache s key \<noteq> None"
    using that key by (auto simp: ndc_to_rxcui_def Let_def)
  from a b c show ?thesis by (simp add: resolve_wr)
qed

theorem resolve_persistence_witness:
  "fst (ndc_to_rxcui (env_ok\<lparr>wr := \<lambda>n. Fails Unparsable\<rparr>) st_empty ''0071-0155-23'')
     = JStr ''617314''
   \<and> saves (log (snd (ndc_to_rxcui env_ok st_empty ''0071-0155-23''))) = 1
   \<and> snd (ndc_to_rxcui env_ok st_hit ''0071-0155-23'') = st_hit"
proof -
  have v: "fst (ndc_to_rxcui env_ok st_empty ''0071-0155-23'') = JStr ''617314''"
    by (simp add: env_ok_def st_empty_def rxnorm_body_def ndc_to_rxcui_def key_sample Let_def
          eval_nat_numeral save_def extract_rxcui_def)
  have m: "cache st_empty ''0071015523'' = None" by (simp add: st_empty_def)
  have h: "cache st_hit ''0071015523'' \<noteq> None" by (simp add: st_hit_def)
  have l: "saves (log st_empty) = 0" by (simp add: st_empty_def)
  from resolve_persistence [OF key_sample, where E = env_ok and s = st_empty
         and w = "\<lambda>n. Fails Unparsable"]
       resolve_persistence [OF key_sample, where E = env_ok and s = st_hit
         and w = "\<lambda>n. Fails Unparsable"] v m h l
  show ?thesis by simp
qed

text \<open>
  C5 as stated fails on a cache hit: \<open>0071-0155-23\<close> has a non-empty key, which
  \<open>st_hit\<close> holds; the resolution returns the cached identifier, no \<open>_save\<close> is
  called and the cache file is still missing.
\<close>

theorem cache_hit_writes_nothing:
  "py_strip (remove_dashes ''0071-0155-23'') \<noteq> []
   \<and> ndc_to_rxcui env_ok st_hit ''0071-0155-23'' = (JStr ''617314'', st_hit)
   \<and> saves (log (snd (ndc_to_rxcui env_ok st_hit ''0071-0155-23''))) = saves (log st_hit)
   \<and> disk (snd (ndc_to_rxcui env_ok st_hit ''0071-0155-23'')) = Missing"
  by (simp add: ndc_to_rxcui_def key_sample st_hit_def)

text \<open>
  C6, as the code has it. When an attempt's body is an object whose \<open>idGroup\<close> is an
  object (or is absent, which counts as the empty object), the attempt ends the
  loop: it returns and caches the first element of \<open>rxnormId\<close> when that is a
  non-empty array, and "not found" in every other case: the field absent, an empty
  array, a string, or any other value.
\<close>

theorem response_identifier:
  assumes resp: "net E (fetches (log s)) (url_of key) = Body (JObj body)"
    and grp: "map_of body ''idGroup'' = Some (JObj g) \<or> map_of body ''idGroup'' = None \<and> g = []"
  shows "let v = (case map_of g ''rxnormId'' of Some (JArr (x # xs)) \<Rightarrow> x | _ \<Rightarrow> JNull) in
           attempts E key (Suc n) s
             = (v, save E (s\<lparr>log := log s @ [Fetch (url_of key)],
                             cache := (cache s)(key \<mapsto> v)\<rparr>))
         \<and> (py_strip (remove_dashes ndc) = key \<and> key \<noteq> [] \<and> cache s key = None
              \<longrightarrow> fst (ndc_to_rxcui E s ndc) = v)"
proof -
  let ?v = "case map_of g ''rxnormId'' of Some (JArr (x # xs)) \<Rightarrow> x | _ \<Rightarrow> JNull"
  from grp have "extract_rxcui (JObj body) = Some ?v"
    by (auto simp: extract_rxcui_def split: option.splits jval.splits list.splits)
  from attempt_answered [OF resp this]
  have *: "\<And>n. attempts E key (Suc n) s
      = (?v, save E (s\<lparr>log := log s @ [Fetch (url_of key)],
                        cache := (cache s)(key \<mapsto> ?v)\<rparr>))" .
  then have "py_strip (remove_dashes ndc) = key \<and> key \<noteq> [] \<and> cache s key = None
              \<longrightarrow> fst (ndc_to_rxcui E s ndc) = ?v"
    by (auto simp: resolve_miss eval_nat_numeral)
  with * show ?thesis by (simp add: Let_def)
qed

theorem response_identifier_witness:
  "fst (ndc_to_rxcui env_ok st_empty ''0071-0155-23'') = JStr ''617314''"
proof -
  have resp: "net env_ok (fetches (log st_empty)) (url_of ''0071015523'')
      = Body (JObj [(''idGroup'', JObj [(''rxnormId'', JArr [JStr ''617314''])])])"
    by (simp add: env_ok_def rxnorm_body_def)
  have grp: "map_of [(''idGroup'', JObj [(''rxnormId'', JArr [JStr ''617314''])])] ''idGroup''
      = Some (JObj [(''rxnormId'', JArr [JStr ''617314''])])
     \<or> map_of [(''idGroup'', JObj [(''rxnormId'', JArr [JStr ''617314''])])] ''idGroup'' = None
        \<and> [(''rxnormId'', JArr [JStr ''617314''])] = []"
    by simp
  have m: "cache st_empty ''0071015523'' = None" by (simp add: st_empty_def)
  from response_identifier [OF resp grp, where n = 2 and ndc = "''0071-0155-23''"] key_sample m
  show ?thesis by (simp add: Let_def)
qed

text \<open>
  C6 as stated fails when the identifier comes as a string: the body
  \<open>{"idGroup": {"rxnormId": "617314"}}\<close> carries an identifier, and the resolver
  returns \<open>None\<close>.
\<close>

theorem string_identifier_not_found:
  "net env_string_id (fetches (log st_empty)) (url_of ''0071015523'')
     = Body (JObj [(''idGroup'', JObj [(''rxnormId'', JStr ''617314'')])])
   \<and> fst (ndc_to_rxcui env_string_id st_empty ''0071-0155-23'') = JNull
   \<and> fst (ndc_to_rxcui env_string_id st_empty ''0071-0155-23'') \<noteq> JStr ''617314''"
  by (simp add: env_string_id_def st_empty_def rxnorm_body_def ndc_to_rxcui_def key_sample Let_def
        eval_nat_numeral save_def extract_rxcui_def)

text \<open>
  C1. One round of the ingestion loop counts the row as read. It appends a rule to
  the output and counts it as written exactly when contract, plan, code and tier
  are non-empty after the fallback between column names and the code resolves to
  an identifier; otherwise the output and the written count stay as they are. A
  row that lacks one of the four fields does not reach the resolver.
\<close>

theorem rule_emitted_iff:
  "n_in (row_step E st r) = n_in st + 1
   \<and> (emits E (rs st) r \<longrightarrow>
        out (row_step E st r) = out st @ [rule_of r (fst (ndc_to_rxcui E (rs st) (ndc_of r)))]
        \<and> n_out (row_step E st r) = n_out st + 1)
   \<and> (\<not> emits E (rs st) r \<longrightarrow>
        out (row_step E st r) = out st \<and> n_out (row_step E st r) = n_out st)
   \<and> (\<not> fields_present r \<longrightarrow> rs (row_step E st r) = rs st)
   \<and> (fields_present r \<longrightarrow> rs (row_step E st r) = snd (ndc_to_rxcui E (rs st) (ndc_of r)))"
  by (auto simp: row_step_def emits_def fields_present_def contract_of_def plan_of_def tier_of_def
        str_or_truthy row_get_truthy Let_def split: prod.splits)

theorem rule_emitted_iff_witness:
  "emits env_one_code st_empty row_ok
   \<and> n_in (row_step env_one_code ist_start row_ok) = 1
   \<and> n_out (row_step env_one_code ist_start row_ok) = 1
   \<and> out (row_step env_one_code ist_start row_ok)
       = [header, [JStr ''H1234-001'', JStr ''617314'', JStr [], JStr [], JStr [], JStr ''2'',
                   JBool True, JBool False, JBool False, JStr [], JStr [], JStr [], JStr ''CMS-PUF'']]
   \<and> fields_present row_nbsp_code \<and> \<not> emits env_ok st_empty row_nbsp_code
   \<and> n_in (row_step env_ok ist_start row_nbsp_code) = 1
   \<and> n_out (row_step env_ok ist_start row_nbsp_code) = 0
   \<and> out (row_step env_ok ist_start row_nbsp_code) = [header]"
proof -
  have e: "emits env_one_code (rs ist_start) row_ok"
    by (simp add: emits_def fields_present_def has_value_def row_ok_cols ndc_row_ok
          resolve_row_ok ist_start_def)
  have r: "rule_of row_ok (JStr ''617314'')
      = [JStr ''H1234-001'', JStr ''617314'', JStr [], JStr [], JStr [], JStr ''2'',
                   JBool True, JBool False, JBool False, JStr [], JStr [], JStr [], JStr ''CMS-PUF'']"
    by (simp add: rule_of_def contract_of_def plan_of_def tier_of_def row_get_def row_get_default_def
          str_or_def row_ok_cols norm_bool_def py_strip_def py_isspace_def case_defs)
  have f: "fields_present row_nbsp_code"
    by (simp add: fields_present_def has_value_def row_nbsp_code_cols ndc_row_nbsp_code)
  have n: "\<not> emits env_ok (rs ist_start) row_nbsp_code"
    by (simp add: emits_def ndc_row_nbsp_code resolve_nbsp ist_start_def)
  from rule_emitted_iff [of env_one_code ist_start row_ok] e r
  have kept: "n_in (row_step env_one_code ist_start row_ok) = 1
      \<and> n_out (row_step env_one_code ist_start row_ok) = 1
      \<and> out (row_step env_one_code ist_start row_ok)
          = [header, [JStr ''H1234-001'', JStr ''617314'', JStr [], JStr [], JStr [], JStr ''2'',
                   JBool True, JBool False, JBool False, JStr [], JStr [], JStr [], JStr ''CMS-PUF'']]"
    by (simp add: ist_start_def ndc_row_ok resolve_row_ok)
  from rule_emitted_iff [of env_ok ist_start row_nbsp_code] f n
  have dropped: "n_in (row_step env_ok ist_start row_nbsp_code) = 1
      \<and> n_out (row_step env_ok ist_start row_nbsp_code) = 0
      \<and> out (row_step env_ok ist_start row_nbsp_code) = [header]"
    by (simp add: ist_start_def)
  from e f n kept dropped show ?thesis by (simp add: ist_start_def)
qed

text \<open>
  C2. A flag given as a string is true exactly when the string, stripped of the
  white space around it and put in upper case, is one of \<open>Y\<close>, \<open>YES\<close>, \<open>TRUE\<close>, \<open>T\<close>,
  \<open>1\<close>. The flag read from a row is true exactly when the column holds such a
  string: a column that is absent, and a cell that is \<open>None\<close>, give false.
\<close>

theorem flag_normalisation:
  "norm_bool (Some v) = (py_upper (py_strip v) \<in> {''Y'', ''YES'', ''TRUE'', ''T'', ''1''})
   \<and> norm_bool (row_get_default r col ''N'')
       = (\<exists>v. r col = Some (Some v) \<and> py_upper (py_strip v) \<in> {''Y'', ''YES'', ''TRUE'', ''T'', ''1''})
   \<and> (r col = None \<longrightarrow> \<not> norm_bool (row_get_default r col ''N''))"
proof -
  have "norm_bool (row_get_default r col ''N'')
       = (\<exists>v. r col = Some (Some v) \<and> py_upper (py_strip v) \<in> {''Y'', ''YES'', ''TRUE'', ''T'', ''1''})"
  proof (cases "r col")
    case None
    then show ?thesis using default_false by (simp add: row_get_default_def)
  next
    case (Some a)
    then show ?thesis using none_false by (cases a) (simp_all add: row_get_default_def flag_of_string)
  qed
  moreover have "r col = None \<longrightarrow> \<not> norm_bool (row_get_default r col ''N'')"
    using default_false by (simp add: row_get_default_def)
  ultimately show ?thesis by (simp add: flag_of_string)
qed

theorem flag_normalisation_witness:
  "row_ok ''STEP_THERAPY_FLAG'' = None
   \<and> \<not> norm_bool (row_get_default row_ok ''STEP_THERAPY_FLAG'' ''N'')
   \<and> norm_bool (row_get_default row_ok ''PRIOR_AUTHORIZATION_FLAG'' ''N'')
   \<and> norm_bool (Some '' yEs '')
   \<and> norm_bool (Some [CHR ''Y'', CHR 0xA0])"
proof -
  have "py_upper (py_strip ''y'') = ''Y''" "py_upper (py_strip '' yEs '') = ''YES''"
    "py_upper (py_strip [CHR ''Y'', CHR 0xA0]) = ''Y''"
    by (simp_all add: py_strip_def py_isspace_def case_defs)
  with flag_normalisation [of "'' yEs ''" row_ok "''STEP_THERAPY_FLAG''"]
       flag_normalisation [of "[CHR ''Y'', CHR 0xA0]" row_ok "''PRIOR_AUTHORIZATION_FLAG''"]
  show ?thesis by (simp add: row_ok_cols)
qed

text \<open>
  C10. When the ingestion returns its pair of counts, the rows written are no
  more than the rows read; the output file holds the header and one line for each
  row counted as written, and the rows read are the rows the reader yielded.
\<close>

theorem counts_ordered:
  assumes "ingest_to_rules E s inp = (Inr (rows_read, rows_written), file, s')"
  shows "rows_written \<le> rows_read \<and> length file = 1 + rows_written
     \<and> (\<exists>rows. open_formulary_rows inp = (rows, None) \<and> rows_read = length rows)"
proof -
  obtain rows err where o: "open_formulary_rows inp = (rows, err)"
    by (cases "open_formulary_rows inp")
  let ?st = "foldl (row_step E) \<lparr>rs = s, out = [header], n_in = 0, n_out = 0\<rparr> rows"
  from assms o have "rows_read = n_in ?st" "rows_written = n_out ?st" "file = out ?st" "err = None"
    by (auto simp: ingest_to_rules_def Let_def split: option.splits)
  with o foldl_counts [of E "\<lparr>rs = s, out = [header], n_in = 0, n_out = 0\<rparr>" rows]
  show ?thesis by simp
qed

theorem counts_ordered_witness:
  "fst (ingest_to_rules env_one_code st_empty (Flat sample_rows)) = Inr (3, 1)
   \<and> (1::nat) \<le> 3
   \<and> length (fst (snd (ingest_to_rules env_one_code st_empty (Flat sample_rows)))) = 2"
proof -
  let ?run = "ingest_to_rules env_one_code st_empty (Flat sample_rows)"
  have "fst ?run = Inr (3, 1)"
    by (simp add: ingest_defs sample_rows_def env_one_code_def st_empty_def rxnorm_body_def
          run_defs case_defs)
  then have run: "?run = (Inr (3, 1), fst (snd ?run), snd (snd ?run))"
    by (metis prod.collapse)
  from counts_ordered [OF run] \<open>fst ?run = Inr (3, 1)\<close> show ?thesis by simp
qed

text \<open>
  C7, as the code has it. For an archive with no member whose name contains
  \<open>formulary\<close> in any case and ends in \<open>.csv\<close>, the ingestion fails with
  \<open>NoTableFound\<close>; by then the output file has been opened and holds the header
  row, and nothing else: no rule is written and the resolver is not called.
\<close>

theorem no_table_found:
  assumes "\<forall>n \<in> set names. \<not> (py_in ''formulary'' (py_lower n) \<and> suffix ''.csv'' (py_lower n))"
  shows "ingest_to_rules E s (Zip names member) = (Inl NoTableFound, [header], s)"
proof -
  from assms have "filter looks_like_formulary names = []"
    by (simp add: filter_empty_conv looks_like_formulary_def)
  then show ?thesis
    by (simp add: ingest_to_rules_def open_formulary_rows_def)
qed

theorem no_table_found_witness:
  "ingest_to_rules env_ok st_empty (Zip [''readme.txt'', ''plan_info.csv''] no_rows)
     = (Inl NoTableFound, [header], st_empty)"
proof -
  have "\<forall>n \<in> set [''readme.txt'', ''plan_info.csv''].
          \<not> (py_in ''formulary'' (py_lower n) \<and> suffix ''.csv'' (py_lower n))"
    by (simp add: case_defs suffix_to_prefix)
  from no_table_found [OF this] show ?thesis .
qed

text \<open>
  C7 as stated fails: with an archive of \<open>readme.txt\<close> and \<open>plan_info.csv\<close> the call
  fails with \<open>NoTableFound\<close> and the output file is not empty, it holds the header.
\<close>

theorem header_written_before_failure:
  "ingest_to_rules env_ok st_empty zip_without_table = (Inl NoTableFound, [header], st_empty)
   \<and> fst (snd (ingest_to_rules env_ok st_empty zip_without_table)) \<noteq> []"
  by (simp add: ingest_to_rules_def open_formulary_rows_def zip_without_table_def
        looks_like_formulary_def case_defs suffix_to_prefix)

end
